theory Spec2Isabelle
  imports Main
begin

section \<open>Element trees\<close>

text \<open>
  The builder of \<^verbatim>\<open>xml_query_builder.py\<close> keeps its query in an
  \<^verbatim>\<open>xml.etree.ElementTree\<close> tree. An element has a tag, an attribute dictionary
  (insertion ordered, so an association list), the text before its first child, the text
  after its end tag, and its children in order. Strings are lists of 8-bit characters,
  read as the code points 0 to 255.
\<close>

datatype element =
  Element (tag: string) (attrib: "(string \<times> string) list")
          (etext: "string option") (tail: "string option") (children: "element list")

type_synonym path = "nat list"

text \<open>The node reached from an element by descending into the children named by a path.\<close>

primrec subtree :: "path \<Rightarrow> element \<Rightarrow> element option" where
  "subtree [] e = Some e"
| "subtree (i # p) e =
     (if i < length (children e) then subtree p (children e ! i) else None)"

text \<open>Appending a child to the node at a path; the rest of the tree is untouched.\<close>

primrec append_at :: "path \<Rightarrow> element \<Rightarrow> element \<Rightarrow> element" where
  "append_at [] c e = Element (tag e) (attrib e) (etext e) (tail e) (children e @ [c])"
| "append_at (i # p) c e =
     (if i < length (children e)
      then Element (tag e) (attrib e) (etext e) (tail e)
             ((children e)[i := append_at p c (children e ! i)])
      else e)"

text \<open>
  Document order (\<^verbatim>\<open>Element.iter\<close>): the node itself, then each child's
  nodes, every node with its path and its tag.
\<close>

fun iter :: "element \<Rightarrow> (path \<times> string) list"
  and iter_children :: "nat \<Rightarrow> element list \<Rightarrow> (path \<times> string) list" where
  "iter (Element t a x l cs) = ([], t) # iter_children 0 cs"
| "iter_children i [] = []"
| "iter_children i (c # cs) =
     map (\<lambda>(p, t). (i # p, t)) (iter c) @ iter_children (Suc i) cs"

text \<open>
  \<^verbatim>\<open>elem.find(".//name")\<close>: the first node, in document order, below
  \<^verbatim>\<open>elem\<close> (the element itself is not a candidate) whose tag is the name;
  \<^verbatim>\<open>None\<close> when there is none.
\<close>

definition find_descendant :: "element \<Rightarrow> string \<Rightarrow> path option" where
  "find_descendant e name =
     (case filter (\<lambda>(p, t). t = name) (tl (iter e)) of
        [] \<Rightarrow> None
      | (p, t) # _ \<Rightarrow> Some p)"


section \<open>Errors\<close>

datatype error =
    ParseError        \<comment> \<open>\<^verbatim>\<open>xml.etree.ElementTree.ParseError\<close>\<close>
  | TypeError         \<comment> \<open>\<^verbatim>\<open>SubElement(None, ...)\<close>\<close>
  | AttributeError    \<comment> \<open>an attribute read on \<^verbatim>\<open>None\<close>, or one never assigned\<close>
  | KeyError          \<comment> \<open>a missing key of \<^verbatim>\<open>attrib\<close>\<close>
  | OutsideModel      \<comment> \<open>XML syntax that the parser below does not cover\<close>
  | Dangling          \<comment> \<open>a reference that names no node; Python has none\<close>

section \<open>Serialisation (\<^verbatim>\<open>ET.tostring\<close>)\<close>

text \<open>
  The standard library's serialiser, for elements whose tags and attribute names are
  plain names (no namespaces), which are the only ones that the builder or the parser
  below make. \<^verbatim>\<open>text.replace(old, new)\<close> for a one-character \<^verbatim>\<open>old\<close>:
\<close>

definition replace :: "char \<Rightarrow> string \<Rightarrow> string \<Rightarrow> string" where
  "replace old new s = concat (map (\<lambda>c. if c = old then new else [c]) s)"

definition escape_cdata :: "string \<Rightarrow> string" where
  "escape_cdata s =
     replace (CHR ''>'') ''&gt;'' (replace (CHR ''<'') ''&lt;'' (replace (CHR ''&'') ''&amp;'' s))"

definition escape_attrib :: "string \<Rightarrow> string" where
  "escape_attrib s =
     replace (CHR 0x09) ''&#09;''
       (replace (CHR 0x0A) ''&#10;''
         (replace (CHR 0x0D) ''&#13;''
           (replace (CHR 0x22) ''&quot;''
             (replace (CHR ''>'') ''&gt;''
               (replace (CHR ''<'') ''&lt;''
                 (replace (CHR ''&'') ''&amp;'' s))))))"

text \<open>A text that is \<^verbatim>\<open>None\<close> or empty is false in a condition.\<close>

definition truthy :: "string option \<Rightarrow> bool" where
  "truthy x = (case x of None \<Rightarrow> False | Some s \<Rightarrow> s \<noteq> [])"

definition cdata :: "string option \<Rightarrow> string" where
  "cdata x = (case x of None \<Rightarrow> [] | Some s \<Rightarrow> escape_cdata s)"

definition serialize_attrib :: "(string \<times> string) list \<Rightarrow> string" where
  "serialize_attrib a =
     concat (map (\<lambda>(k, v). '' '' @ k @ [CHR ''='', CHR 0x22] @ escape_attrib v @ [CHR 0x22]) a)"

fun serialize_xml :: "element \<Rightarrow> string" where
  "serialize_xml (Element t a x l cs) =
     ''<'' @ t @ serialize_attrib a @
     (if truthy x \<or> cs \<noteq> []
      then ''>'' @ cdata x @ concat (map serialize_xml cs) @ ''</'' @ t @ ''>''
      else '' />'') @
     cdata l"

section \<open>Parsing (\<^verbatim>\<open>ET.fromstring\<close>)\<close>

text \<open>
  The standard library's parser on a fragment of XML: elements with attributes in single
  or double quotes, character data, the five predefined entities and numeric character
  references. The outcome on a document outside the fragment (declarations, comments,
  processing instructions, CDATA sections, namespaces, names or character references
  beyond ASCII resp. 255) is \<open>OutsideModel\<close>, about which nothing is claimed;
  \<open>ParseError\<close> is the outcome on text that is not well-formed.

  As the library does, the text is first cut into the events of the tags and the
  character data, and the events then build the tree.
\<close>

definition is_space :: "char \<Rightarrow> bool" where
  "is_space c = (c = CHR '' '' \<or> c = CHR 0x09 \<or> c = CHR 0x0A \<or> c = CHR 0x0D)"

definition xml_char :: "char \<Rightarrow> bool" where
  "xml_char c = (32 \<le> (of_char c :: nat) \<or> c = CHR 0x09 \<or> c = CHR 0x0A \<or> c = CHR 0x0D)"

definition is_letter :: "char \<Rightarrow> bool" where
  "is_letter c = (let n = (of_char c :: nat) in (65 \<le> n \<and> n \<le> 90) \<or> (97 \<le> n \<and> n \<le> 122))"

definition is_digit :: "char \<Rightarrow> bool" where
  "is_digit c = (let n = (of_char c :: nat) in 48 \<le> n \<and> n \<le> 57)"

definition is_name_start :: "char \<Rightarrow> bool" where
  "is_name_start c = (is_letter c \<or> c = CHR ''_'')"

definition is_name_char :: "char \<Rightarrow> bool" where
  "is_name_char c = (is_name_start c \<or> is_digit c \<or> c = CHR ''-'' \<or> c = CHR ''.'')"

text \<open>A colon or a character beyond ASCII in a name: namespaces and names not covered.\<close>

definition beyond_names :: "char \<Rightarrow> bool" where
  "beyond_names c = (c = CHR '':'' \<or> 128 \<le> (of_char c :: nat))"

text \<open>Line ends: a carriage return, with the line feed after it if any, is a line feed.\<close>

fun normalize_newlines :: "string \<Rightarrow> string" where
  "normalize_newlines (c # d # cs) =
     (if c = CHR 0x0D \<and> d = CHR 0x0A then CHR 0x0A # normalize_newlines cs
      else if c = CHR 0x0D then CHR 0x0A # normalize_newlines (d # cs)
      else c # normalize_newlines (d # cs))"
| "normalize_newlines [c] = (if c = CHR 0x0D then [CHR 0x0A] else [c])"
| "normalize_newlines [] = []"

text \<open>Numbers of character references.\<close>

definition hex_value :: "char \<Rightarrow> nat option" where
  "hex_value c =
     (let n = (of_char c :: nat) in
      if 48 \<le> n \<and> n \<le> 57 then Some (n - 48)
      else if 65 \<le> n \<and> n \<le> 70 then Some (n - 55)
      else if 97 \<le> n \<and> n \<le> 102 then Some (n - 87)
      else None)"

definition number :: "nat \<Rightarrow> string \<Rightarrow> nat option" where
  "number base ds =
     (if ds \<noteq> [] \<and> (\<forall>c \<in> set ds. case hex_value c of None \<Rightarrow> False | Some v \<Rightarrow> v < base)
      then Some (foldl (\<lambda>n c. base * n + the (hex_value c)) 0 ds)
      else None)"

definition char_reference :: "nat option \<Rightarrow> error + char" where
  "char_reference x =
     (case x of
        None \<Rightarrow> Inl ParseError
      | Some n \<Rightarrow>
          if 256 \<le> n then Inl OutsideModel
          else if xml_char (char_of n) then Inr (char_of n)
          else Inl ParseError)"

text \<open>
  What stands between \<^verbatim>\<open>&\<close> and \<^verbatim>\<open>;\<close>. Without a document type
  there are no other entities than the five.
\<close>

definition reference :: "string \<Rightarrow> error + char" where
  "reference n =
     (if n = ''amp'' then Inr (CHR ''&'')
      else if n = ''lt'' then Inr (CHR ''<'')
      else if n = ''gt'' then Inr (CHR ''>'')
      else if n = ''quot'' then Inr (CHR 0x22)
      else if n = ''apos'' then Inr (CHR 0x27)
      else (case n of
              c # d # ds \<Rightarrow>
                if c = CHR ''#'' \<and> d = CHR ''x'' then char_reference (number 16 ds)
                else if c = CHR ''#'' then char_reference (number 10 (d # ds))
                else Inl ParseError
            | _ \<Rightarrow> Inl ParseError))"

text \<open>
  The value of an attribute (\<open>att\<close>) or a run of character data, from its text between
  the delimiters: references are replaced, and in an attribute a literal tab or line end
  is a space. The second argument is the part of a reference read so far.
\<close>

fun unescape :: "bool \<Rightarrow> string option \<Rightarrow> string \<Rightarrow> error + string" where
  "unescape att None [] = Inr []"
| "unescape att (Some n) [] = Inl ParseError"
| "unescape att None (c # cs) =
     (if c = CHR ''&'' then unescape att (Some []) cs
      else if \<not> xml_char c \<or> c = CHR ''<'' then Inl ParseError
      else (case unescape att None cs of
              Inl e \<Rightarrow> Inl e
            | Inr r \<Rightarrow> Inr ((if att \<and> is_space c then CHR '' '' else c) # r)))"
| "unescape att (Some n) (c # cs) =
     (if c = CHR '';''
      then (case reference n of
              Inl e \<Rightarrow> Inl e
            | Inr d \<Rightarrow> (case unescape att None cs of Inl e \<Rightarrow> Inl e | Inr r \<Rightarrow> Inr (d # r)))
      else unescape att (Some (n @ [c])) cs)"

text \<open>A name at the start of the text, and the text after it.\<close>

definition scan_name :: "string \<Rightarrow> error + (string \<times> string)" where
  "scan_name s =
     (case s of
        [] \<Rightarrow> Inl ParseError
      | c # cs \<Rightarrow>
          if beyond_names c then Inl OutsideModel
          else if \<not> is_name_start c then Inl ParseError
          else if (case dropWhile is_name_char cs of [] \<Rightarrow> False | d # ds \<Rightarrow> beyond_names d)
          then Inl OutsideModel
          else Inr (c # takeWhile is_name_char cs, dropWhile is_name_char cs))"

text \<open>One attribute: a name, the equals sign, and the quoted value.\<close>

definition scan_attribute :: "string \<Rightarrow> error + ((string \<times> string) \<times> string)" where
  "scan_attribute s =
     (case scan_name s of
        Inl e \<Rightarrow> Inl e
      | Inr (k, r) \<Rightarrow>
          (case dropWhile is_space r of
             [] \<Rightarrow> Inl ParseError
           | c # cs \<Rightarrow>
               if c \<noteq> CHR ''='' then Inl ParseError
               else (case dropWhile is_space cs of
                       [] \<Rightarrow> Inl ParseError
                     | q # qs \<Rightarrow>
                         if q \<noteq> CHR 0x22 \<and> q \<noteq> CHR 0x27 then Inl ParseError
                         else (case dropWhile (\<lambda>x. x \<noteq> q) qs of
                                 [] \<Rightarrow> Inl ParseError
                               | _ # rest \<Rightarrow>
                                   (case unescape True None (takeWhile (\<lambda>x. x \<noteq> q) qs) of
                                      Inl e \<Rightarrow> Inl e
                                    | Inr v \<Rightarrow> Inr ((k, v), rest))))))"

lemma scan_name_shorter: "scan_name s = Inr (n, r) \<Longrightarrow> length r < length s"
proof -
  assume a: "scan_name s = Inr (n, r)"
  then obtain c cs where s: "s = c # cs" and r: "r = dropWhile is_name_char cs"
    by (cases s) (auto simp: scan_name_def split: if_splits)
  have "length (dropWhile is_name_char cs) \<le> length cs"
    by (rule length_dropWhile_le)
  then show ?thesis using s r by simp
qed

lemma scan_attribute_shorter: "scan_attribute s = Inr (kv, rest) \<Longrightarrow> length rest < length s"
proof -
  assume a: "scan_attribute s = Inr (kv, rest)"
  then obtain k r where n: "scan_name s = Inr (k, r)"
    by (auto simp: scan_attribute_def split: sum.splits)
  from a n obtain c cs where 1: "dropWhile is_space r = c # cs"
    by (auto simp: scan_attribute_def split: list.splits)
  from a n 1 obtain q qs where 2: "dropWhile is_space cs = q # qs"
    by (auto simp: scan_attribute_def split: list.splits if_splits)
  from a n 1 2 obtain x where 3: "dropWhile (\<lambda>x. x \<noteq> q) qs = x # rest"
    by (auto simp: scan_attribute_def split: list.splits if_splits sum.splits)
  have "length (x # rest) \<le> length qs"
    unfolding 3 [symmetric] by (rule length_dropWhile_le)
  moreover have "length (q # qs) \<le> length cs"
    unfolding 2 [symmetric] by (rule length_dropWhile_le)
  moreover have "length (c # cs) \<le> length r"
    unfolding 1 [symmetric] by (rule length_dropWhile_le)
  moreover note scan_name_shorter [OF n]
  ultimately show ?thesis by simp
qed

text \<open>
  The attributes of a start tag, up to and with its end: whether the tag is an
  empty-element tag, and the text after it. White space comes before every attribute.
\<close>

function scan_attributes :: "string \<Rightarrow> error + ((string \<times> string) list \<times> bool \<times> string)" where
  "scan_attributes s =
     (case s of
        [] \<Rightarrow> Inl ParseError
      | c # cs \<Rightarrow>
          if c = CHR ''>'' then Inr ([], False, cs)
          else if c = CHR ''/''
          then (case cs of
                  [] \<Rightarrow> Inl ParseError
                | d # ds \<Rightarrow> if d = CHR ''>'' then Inr ([], True, ds) else Inl ParseError)
          else if is_space c
          then (case dropWhile is_space cs of
                  [] \<Rightarrow> Inl ParseError
                | d # ds \<Rightarrow>
                    if d = CHR ''>'' \<or> d = CHR ''/'' then scan_attributes (d # ds)
                    else (case scan_attribute (d # ds) of
                            Inl e \<Rightarrow> Inl e
                          | Inr (kv, rest) \<Rightarrow>
                              (case scan_attributes rest of
                                 Inl e \<Rightarrow> Inl e
                               | Inr (a, emp, rest') \<Rightarrow> Inr (kv # a, emp, rest'))))
          else Inl ParseError)"
  by pat_completeness auto
termination
proof (relation "measure length", goal_cases)
  case 1
  show ?case by simp
next
  case (2 s c cs d ds)
  have "length (dropWhile is_space cs) \<le> length cs" by (rule length_dropWhile_le)
  with 2 show ?case by simp
next
  case (3 s c cs d ds x kv rest)
  have "length (dropWhile is_space cs) \<le> length cs" by (rule length_dropWhile_le)
  moreover have "length rest < length (d # ds)"
    using 3 by (intro scan_attribute_shorter [of _ kv]) simp
  ultimately show ?case using 3 by simp
qed

declare scan_attributes.simps [simp del]

lemma attributes_shorter: "scan_attributes s = Inr (a, emp, rest) \<Longrightarrow> length rest < length s"
proof (induction s arbitrary: a emp rest rule: scan_attributes.induct)
  case (1 s)
  show ?case
  proof (cases s)
    case Nil
    with "1.prems" show ?thesis by (simp add: scan_attributes.simps)
  next
    case (Cons c cs)
    have le: "length (dropWhile is_space cs) \<le> length cs" by (rule length_dropWhile_le)
    consider (gt) "c = CHR ''>''" | (slash) "c \<noteq> CHR ''>''" "c = CHR ''/''"
      | (space) "c \<noteq> CHR ''>''" "c \<noteq> CHR ''/''" "is_space c"
      | (other) "c \<noteq> CHR ''>''" "c \<noteq> CHR ''/''" "\<not> is_space c"
      by blast
    then show ?thesis
    proof cases
      case gt
      with "1.prems" Cons show ?thesis by (simp add: scan_attributes.simps)
    next
      case slash
      with "1.prems" Cons show ?thesis
        by (auto simp: scan_attributes.simps split: list.splits if_splits)
    next
      case other
      with "1.prems" Cons show ?thesis by (simp add: scan_attributes.simps)
    next
      case space
      from "1.prems" Cons space obtain d ds where d: "dropWhile is_space cs = d # ds"
        by (subst (asm) scan_attributes.simps) (auto split: list.splits)
      show ?thesis
      proof (cases "d = CHR ''>'' \<or> d = CHR ''/''")
        case True
        with "1.prems" Cons space d have "scan_attributes (d # ds) = Inr (a, emp, rest)"
          by (subst (asm) scan_attributes.simps) auto
        from "1.IH"(1) [OF Cons _ _ _ d True this] space
        have "length rest < length (d # ds)" by simp
        with le d Cons show ?thesis by simp
      next
        case False
        with "1.prems" Cons space d obtain kv r where
          kv: "scan_attribute (d # ds) = Inr (kv, r)"
          by (subst (asm) scan_attributes.simps) (auto split: sum.splits)
        with "1.prems" Cons space d False obtain a' where
          r: "scan_attributes r = Inr (a', emp, rest)"
          by (subst (asm) scan_attributes.simps) (auto split: sum.splits)
        have "length rest < length r"
          using "1.IH"(2) [OF Cons _ _ _ d False kv refl r] space by simp
        moreover have "length r < length (d # ds)" by (rule scan_attribute_shorter [OF kv])
        ultimately show ?thesis using le d Cons by simp
      qed
    qed
  qed
qed

text \<open>The events of the library's parser.\<close>

datatype token =
    Start string "(string \<times> string) list"
  | End string
  | Data string bool   \<comment> \<open>the characters, and whether the text was white space only\<close>

text \<open>\<^verbatim>\<open>]]>\<close> may not stand in character data.\<close>

fun has_cdata_end :: "string \<Rightarrow> bool" where
  "has_cdata_end (a # b # c # cs) =
     ((a = CHR '']'' \<and> b = CHR '']'' \<and> c = CHR ''>'') \<or> has_cdata_end (b # c # cs))"
| "has_cdata_end _ = False"

text \<open>
  The events of the first piece of a non-emp text, a tag or a run of character data,
  and the text after it. An empty-element tag is a start and an end.
\<close>

definition next_token :: "string \<Rightarrow> error + (token list \<times> string)" where
  "next_token s =
     (case s of
        [] \<Rightarrow> Inl ParseError
      | c # cs \<Rightarrow>
          if c \<noteq> CHR ''<''
          then (let raw = takeWhile (\<lambda>x. x \<noteq> CHR ''<'') s in
                if has_cdata_end raw then Inl ParseError
                else (case unescape False None raw of
                        Inl e \<Rightarrow> Inl e
                      | Inr d \<Rightarrow>
                          Inr ([Data d (list_all is_space raw)],
                               dropWhile (\<lambda>x. x \<noteq> CHR ''<'') s)))
          else (case cs of
                  [] \<Rightarrow> Inl ParseError
                | d # ds \<Rightarrow>
                    if d = CHR ''!'' \<or> d = CHR ''?'' then Inl OutsideModel
                    else if d = CHR ''/''
                    then (case scan_name ds of
                            Inl e \<Rightarrow> Inl e
                          | Inr (n, r) \<Rightarrow>
                              (case dropWhile is_space r of
                                 [] \<Rightarrow> Inl ParseError
                               | g # r' \<Rightarrow>
                                   if g = CHR ''>'' then Inr ([End n], r') else Inl ParseError))
                    else (case scan_name cs of
                            Inl e \<Rightarrow> Inl e
                          | Inr (n, r) \<Rightarrow>
                              (case scan_attributes r of
                                 Inl e \<Rightarrow> Inl e
                               | Inr (a, emp, r') \<Rightarrow>
                                   if ''xmlns'' \<in> set (map fst a) then Inl OutsideModel
                                   else if \<not> distinct (map fst a) then Inl ParseError
                                   else Inr (Start n a # (if emp then [End n] else []), r')))))"

lemma next_token_shorter: "next_token s = Inr (ts, rest) \<Longrightarrow> length rest < length s"
proof -
  assume a: "next_token s = Inr (ts, rest)"
  then obtain c cs where s: "s = c # cs"
    by (cases s) (auto simp: next_token_def)
  show ?thesis
  proof (cases "c = CHR ''<''")
    case False
    with a s have "rest = dropWhile (\<lambda>x. x \<noteq> CHR ''<'') cs"
      by (auto simp: next_token_def Let_def split: if_splits sum.splits)
    moreover have "length (dropWhile (\<lambda>x. x \<noteq> CHR ''<'') cs) \<le> length cs"
      by (rule length_dropWhile_le)
    ultimately show ?thesis using s by simp
  next
    case True
    with a s obtain d ds where cs: "cs = d # ds"
      by (cases cs) (auto simp: next_token_def)
    show ?thesis
    proof (cases "d = CHR ''/''")
      case True
      with a s cs \<open>c = CHR ''<''\<close> obtain n r where n: "scan_name ds = Inr (n, r)"
        by (auto simp: next_token_def split: if_splits sum.splits)
      with a s cs True \<open>c = CHR ''<''\<close> obtain g where "dropWhile is_space r = g # rest"
        by (auto simp: next_token_def split: if_splits list.splits)
      then have "length (g # rest) \<le> length r"
        by (metis length_dropWhile_le)
      with scan_name_shorter [OF n] s cs show ?thesis by simp
    next
      case False
      with a s cs \<open>c = CHR ''<''\<close> obtain n r where n: "scan_name cs = Inr (n, r)"
        by (auto simp: next_token_def split: if_splits sum.splits)
      with a s cs False \<open>c = CHR ''<''\<close> obtain at emp where
        "scan_attributes r = Inr (at, emp, rest)"
        by (auto simp: next_token_def split: if_splits sum.splits)
      from attributes_shorter [OF this] scan_name_shorter [OF n] s show ?thesis by simp
    qed
  qed
qed

function tokens :: "string \<Rightarrow> error + token list" where
  "tokens s =
     (if s = [] then Inr []
      else (case next_token s of
              Inl e \<Rightarrow> Inl e
            | Inr (ts, rest) \<Rightarrow>
                (case tokens rest of Inl e \<Rightarrow> Inl e | Inr us \<Rightarrow> Inr (ts @ us))))"
  by pat_completeness auto
termination
proof (relation "measure length", goal_cases)
  case 1
  show ?case by simp
next
  case (2 s x ts rest)
  then show ?case using next_token_shorter [of s ts rest] by simp
qed

declare tokens.simps [simp del]

text \<open>
  The tree builder: the open elements, innermost first, and the root once it is closed.
  Character data goes to the text of the open element, or to the tail of its last child.
\<close>

definition add_text :: "string option \<Rightarrow> string \<Rightarrow> string option" where
  "add_text x d = (case x of None \<Rightarrow> Some d | Some s \<Rightarrow> Some (s @ d))"

definition add_data :: "string \<Rightarrow> element \<Rightarrow> element" where
  "add_data d e =
     (if children e = []
      then Element (tag e) (attrib e) (add_text (etext e) d) (tail e) []
      else (let c = last (children e) in
            Element (tag e) (attrib e) (etext e) (tail e)
              (butlast (children e) @
               [Element (tag c) (attrib c) (etext c) (add_text (tail c) d) (children c)])))"

definition add_child :: "element \<Rightarrow> element \<Rightarrow> element" where
  "add_child e c = Element (tag e) (attrib e) (etext e) (tail e) (children e @ [c])"

fun build :: "token list \<Rightarrow> element list \<Rightarrow> element option \<Rightarrow> error + element" where
  "build [] stack done =
     (case done of
        None \<Rightarrow> Inl ParseError
      | Some r \<Rightarrow> if stack = [] then Inr r else Inl ParseError)"
| "build (Start t a # ts) stack done =
     (if stack = [] \<and> done \<noteq> None then Inl ParseError
      else build ts (Element t a None None [] # stack) done)"
| "build (End t # ts) stack done =
     (case stack of
        [] \<Rightarrow> Inl ParseError
      | e # st \<Rightarrow>
          if tag e \<noteq> t then Inl ParseError
          else (case st of
                  [] \<Rightarrow> build ts [] (Some e)
                | p # st' \<Rightarrow> build ts (add_child p e # st') done))"
| "build (Data d blank # ts) stack done =
     (case stack of
        [] \<Rightarrow> if blank then build ts [] done else Inl ParseError
      | e # st \<Rightarrow> build ts (add_data d e # st) done)"

definition fromstring :: "string \<Rightarrow> error + element" where
  "fromstring s =
     (case tokens (normalize_newlines s) of
        Inl e \<Rightarrow> Inl e
      | Inr ts \<Rightarrow> build ts [] None)"

section \<open>The heap of trees\<close>

text \<open>
  A builder holds references into trees: \<^verbatim>\<open>self.entity\<close> and
  \<^verbatim>\<open>self.filter_root\<close> name nodes inside the tree of \<^verbatim>\<open>self.root\<close>,
  and keep naming them after \<^verbatim>\<open>add_fetch_xml\<close> has replaced the root. The trees
  allocated so far are kept in a list; a reference is the number of a tree and a path in
  it. Nodes are only ever appended, so a path keeps naming the same node.
\<close>

type_synonym ref = "nat \<times> path"
type_synonym heap = "element list"

definition deref :: "heap \<Rightarrow> ref \<Rightarrow> element option" where
  "deref h r = (if fst r < length h then subtree (snd r) (h ! fst r) else None)"

text \<open>
  \<^verbatim>\<open>ET.SubElement(parent, tag, attrib)\<close> creates an element with no text and no
  children, appends it to the parent and returns it. A parent that is \<^verbatim>\<open>None\<close>
  raises \<^verbatim>\<open>TypeError\<close>.
\<close>

definition SubElement ::
  "heap \<Rightarrow> ref option \<Rightarrow> string \<Rightarrow> (string \<times> string) list \<Rightarrow> error + (heap \<times> ref)" where
  "SubElement h parent t a =
     (case parent of
        None \<Rightarrow> Inl TypeError
      | Some (i, p) \<Rightarrow>
          (case deref h (i, p) of
             None \<Rightarrow> Inl Dangling
           | Some e \<Rightarrow>
               Inr (h[i := append_at p (Element t a None None []) (h ! i)],
                    (i, p @ [length (children e)]))))"

section \<open>The builder\<close>

record builder =
  root_entity_name :: string
  trees :: heap
  root :: nat
  entity :: "ref option"
  filter_root :: "ref option"
  select_attributes :: "string list"
  filters :: "ref list"
  linked_entities :: "ref list"
  orders :: "ref list"
  aggregates :: "ref list"

text \<open>
  \<^verbatim>\<open>__init__\<close>: a \<^verbatim>\<open>fetch\<close> root with one \<^verbatim>\<open>entity\<close> child;
  \<^verbatim>\<open>self.filter_root\<close> is not assigned yet.
\<close>

definition create :: "string \<Rightarrow> builder" where
  "create root_entity =
     \<lparr> root_entity_name = root_entity,
       trees = [Element ''fetch'' [] None None
                  [Element ''entity'' [(''name'', root_entity)] None None []]],
       root = 0,
       entity = Some (0, [0]),
       filter_root = None,
       select_attributes = [],
       filters = [],
       linked_entities = [],
       orders = [],
       aggregates = [] \<rparr>"

text \<open>
  A method is a function from the builder's state to an outcome and the state it leaves:
  \<open>None\<close> when it returns (every one of them returns \<^verbatim>\<open>self\<close>),
  \<open>Some e\<close> when it raises \<open>e\<close>, with whatever it had changed by then.
\<close>

type_synonym outcome = "error option \<times> builder"

text \<open>
  The loop of \<^verbatim>\<open>select\<close>. The call of \<^verbatim>\<open>extend\<close> is inside the
  loop body, so the whole argument tuple is recorded once per iteration.
\<close>

fun select_loop :: "string list \<Rightarrow> builder \<Rightarrow> string list \<Rightarrow> outcome" where
  "select_loop attributes b [] = (None, b)"
| "select_loop attributes b (attr # rest) =
     (case SubElement (trees b) (entity b) ''attribute'' [(''name'', attr)] of
        Inl e \<Rightarrow> (Some e, b)
      | Inr (h, r) \<Rightarrow>
          select_loop attributes
            (b\<lparr>trees := h, select_attributes := select_attributes b @ attributes\<rparr>) rest)"

definition select :: "builder \<Rightarrow> string list \<Rightarrow> outcome" where
  "select b attributes =
     (if attributes = [''ALL'']
      then (case SubElement (trees b) (entity b) ''all-attributes'' [] of
              Inl e \<Rightarrow> (Some e, b)
            | Inr (h, r) \<Rightarrow> (None, b\<lparr>trees := h\<rparr>))
      else select_loop attributes b attributes)"

text \<open>\<^verbatim>\<open>x if x else d\<close> on an optional string: \<^verbatim>\<open>None\<close> and the emp string are false.\<close>

definition or_else :: "string option \<Rightarrow> string \<Rightarrow> string" where
  "or_else x d = (case x of None \<Rightarrow> d | Some s \<Rightarrow> if s = [] then d else s)"

definition link_entity ::
  "builder \<Rightarrow> string \<Rightarrow> string option \<Rightarrow> string option \<Rightarrow> string option \<Rightarrow> string option
     \<Rightarrow> outcome" where
  "link_entity b name alias from_field to_field link_type =
     (case SubElement (trees b) (entity b) ''link-entity''
             [(''name'', name),
              (''alias'', or_else alias name),
              (''from'', or_else from_field (name @ ''id'')),
              (''to'', or_else to_field (name @ ''id'')),
              (''link-type'', or_else link_type ''inner'')] of
        Inl e \<Rightarrow> (Some e, b)
      | Inr (h, link) \<Rightarrow>
          (None, b\<lparr>trees := h, linked_entities := linked_entities b @ [link]\<rparr>))"









text \<open>
  \<^verbatim>\<open>add_fetch_xml\<close>: the text is parsed first; a failure leaves the builder as it
  was. Then the root is the parsed tree and the entity the first \<^verbatim>\<open>entity\<close>
  below the root, or \<^verbatim>\<open>None\<close>. The lists and \<^verbatim>\<open>filter_root\<close> are not
  touched: they keep naming nodes of the tree that was the root before.
\<close>

definition add_fetch_xml :: "builder \<Rightarrow> string \<Rightarrow> outcome" where
  "add_fetch_xml b fetch_xml_string =
     (case fromstring fetch_xml_string of
        Inl e \<Rightarrow> (Some e, b)
      | Inr fetch_xml_root \<Rightarrow>
          (None,
           b\<lparr>trees := trees b @ [fetch_xml_root],
             root := length (trees b),
             entity := map_option (\<lambda>p. (length (trees b), p))
                         (find_descendant fetch_xml_root ''entity'')\<rparr>))"

text \<open>
  \<^verbatim>\<open>to_string\<close>. The pretty printer of \<^verbatim>\<open>xml.dom.minidom\<close>
  (\<^verbatim>\<open>parseString(xml_str).toprettyxml()\<close>) is a parameter: a function of the
  serialised text that returns a text or raises.
\<close>

definition to_string ::
  "(string \<Rightarrow> error + string) \<Rightarrow> builder \<Rightarrow> bool \<Rightarrow> (error + string) \<times> builder" where
  "to_string toprettyxml b pretty =
     (case deref (trees b) (root b, []) of
        None \<Rightarrow> (Inl Dangling, b)
      | Some r \<Rightarrow>
          (let xml_str = serialize_xml r in
           if pretty then (toprettyxml xml_str, b) else (Inr xml_str, b)))"

text \<open>
  \<^verbatim>\<open>from_fetch_xml\<close>, the class method. \<^verbatim>\<open>find\<close> returns
  \<^verbatim>\<open>None\<close> when the text has no entity, and reading \<^verbatim>\<open>.attrib\<close> of it
  raises; an entity without a name raises on the key.
\<close>

definition from_fetch_xml :: "string \<Rightarrow> error + builder" where
  "from_fetch_xml fetch_xml_string =
     (case fromstring fetch_xml_string of
        Inl e \<Rightarrow> Inl e
      | Inr fetch_xml_root \<Rightarrow>
          (case find_descendant fetch_xml_root ''entity'' of
             None \<Rightarrow> Inl AttributeError
           | Some p \<Rightarrow>
               (case subtree p fetch_xml_root of
                  None \<Rightarrow> Inl Dangling
                | Some ent \<Rightarrow>
                    (case map_of (attrib ent) ''name'' of
                       None \<Rightarrow> Inl KeyError
                     | Some entity_name \<Rightarrow>
                         (case add_fetch_xml (create entity_name) fetch_xml_string of
                            (Some e, query_builder) \<Rightarrow> Inl e
                          | (None, query_builder) \<Rightarrow> Inr query_builder)))))"




text \<open>The node that \<^verbatim>\<open>self.entity\<close> names, if it names one.\<close>

definition entity_node :: "builder \<Rightarrow> element option" where
  "entity_node b = (case entity b of None \<Rightarrow> None | Some r \<Rightarrow> deref (trees b) r)"

section \<open>Appending to a node\<close>

lemma subtree_append_at_same:
  "subtree p t = Some e \<Longrightarrow> subtree p (append_at p c t) = Some (add_child e c)"
proof (induction p arbitrary: t)
  case Nil
  then show ?case by (simp add: add_child_def)
next
  case (Cons i p)
  then show ?case by (auto split: if_splits)
qed

lemma subtree_append_at_new:
  "subtree p t = Some e \<Longrightarrow> subtree (p @ [length (children e)]) (append_at p c t) = Some c"
proof (induction p arbitrary: t)
  case Nil
  then show ?case by (simp add: nth_append)
next
  case (Cons i p)
  then show ?case by (auto split: if_splits)
qed

lemma SubElement_Some:
  assumes "deref h (i, p) = Some e"
  shows "SubElement h (Some (i, p)) t a =
           Inr (h[i := append_at p (Element t a None None []) (h ! i)],
                (i, p @ [length (children e)]))"
  using assms by (simp add: SubElement_def)

lemma deref_update_same:
  assumes "deref h (i, p) = Some e"
  shows "deref (h[i := append_at p c (h ! i)]) (i, p) = Some (add_child e c)"
  using assms by (auto simp: deref_def subtree_append_at_same split: if_splits)

lemma deref_update_new:
  assumes "deref h (i, p) = Some e"
  shows "deref (h[i := append_at p c (h ! i)]) (i, p @ [length (children e)]) = Some c"
  using assms by (auto simp: deref_def subtree_append_at_new split: if_splits)

lemma entity_node_create:
  "entity_node (create n) = Some (Element ''entity'' [(''name'', n)] None None [])"
  by (simp add: entity_node_def create_def deref_def)

section \<open>Selecting attributes\<close>

text \<open>
  C10. \<^verbatim>\<open>select()\<close> with no argument: the tuple is not \<^verbatim>\<open>('ALL',)\<close> and the
  loop has nothing to go through, so the call returns with the builder as it was: no
  node is added and the recorded names are the same. This holds of every builder, also
  of one without an entity.
\<close>

theorem select_no_arguments: "select b [] = (None, b)"
  by (simp add: select_def)



text \<open>
  C4. \<^verbatim>\<open>select("name", "accountid")\<close> on a new builder appends the two
  \<^verbatim>\<open>attribute\<close> nodes, in order, each with the name only. But
  \<^verbatim>\<open>self.select_attributes.extend(attributes)\<close> stands inside the loop, so the
  names are recorded once per argument: the list holds them twice over, not once each.
\<close>

theorem select_records_names_per_iteration:
  "select (create ''account'') [''name'', ''accountid''] =
     (None,
      (create ''account'')
        \<lparr>trees := [Element ''fetch'' [] None None
                     [Element ''entity'' [(''name'', ''account'')] None None
                        [Element ''attribute'' [(''name'', ''name'')] None None [],
                         Element ''attribute'' [(''name'', ''accountid'')] None None []]]],
         select_attributes := [''name'', ''accountid'', ''name'', ''accountid'']\<rparr>)"
  by (simp add: select_def create_def SubElement_def deref_def)

section \<open>Linking an entity\<close>

text \<open>
  C5. \<^verbatim>\<open>link_entity(name)\<close> with no other argument, on a builder with an entity
  node: the entity node gets one more child at the end, a \<^verbatim>\<open>link-entity\<close> whose
  attributes are the name, the name as alias, the name followed by \<^verbatim>\<open>id\<close> as
  \<^verbatim>\<open>from\<close> and as \<^verbatim>\<open>to\<close>, and the link type \<^verbatim>\<open>inner\<close>. The call
  returns; besides the trees only the list of linked entities changes, by a reference to
  the new node.
\<close>

theorem link_entity_defaults:
  assumes "entity_node b = Some e"
  shows "\<exists>h link.
           link_entity b name None None None None =
             (None, b\<lparr>trees := h, linked_entities := linked_entities b @ [link]\<rparr>) \<and>
           entity_node (b\<lparr>trees := h\<rparr>) =
             Some (add_child e
                     (Element ''link-entity''
                        [(''name'', name), (''alias'', name), (''from'', name @ ''id''),
                         (''to'', name @ ''id''), (''link-type'', ''inner'')] None None [])) \<and>
           deref h link =
             Some (Element ''link-entity''
                     [(''name'', name), (''alias'', name), (''from'', name @ ''id''),
                      (''to'', name @ ''id''), (''link-type'', ''inner'')] None None [])"
proof -
  from assms obtain i p where r: "entity b = Some (i, p)" and e: "deref (trees b) (i, p) = Some e"
    by (cases "entity b") (auto simp: entity_node_def)
  let ?c = "Element ''link-entity''
              [(''name'', name), (''alias'', name), (''from'', name @ ''id''),
               (''to'', name @ ''id''), (''link-type'', ''inner'')] None None []"
  let ?h = "(trees b)[i := append_at p ?c (trees b ! i)]"
  let ?l = "(i, p @ [length (children e)])"
  have "link_entity b name None None None None =
          (None, b\<lparr>trees := ?h, linked_entities := linked_entities b @ [?l]\<rparr>)"
    using r e by (simp add: link_entity_def or_else_def SubElement_Some)
  moreover have "entity_node (b\<lparr>trees := ?h\<rparr>) = Some (add_child e ?c)"
    using r e by (simp add: entity_node_def deref_update_same)
  moreover have "deref ?h ?l = Some ?c"
    using e by (rule deref_update_new)
  ultimately show ?thesis by blast
qed

theorem link_entity_defaults_witness:
  "\<exists>h link.
     link_entity (create ''account'') ''contact'' None None None None =
       (None, (create ''account'')\<lparr>trees := h, linked_entities := [link]\<rparr>) \<and>
     entity_node ((create ''account'')\<lparr>trees := h\<rparr>) =
       Some (Element ''entity'' [(''name'', ''account'')] None None
               [Element ''link-entity''
                  [(''name'', ''contact''), (''alias'', ''contact''), (''from'', ''contactid''),
                   (''to'', ''contactid''), (''link-type'', ''inner'')] None None []]) \<and>
     deref h link =
       Some (Element ''link-entity''
               [(''name'', ''contact''), (''alias'', ''contact''), (''from'', ''contactid''),
                (''to'', ''contactid''), (''link-type'', ''inner'')] None None [])"
  using link_entity_defaults [OF entity_node_create, of "''account''" "''contact''"]
  by (simp add: add_child_def create_def)

section \<open>Serialising\<close>

text \<open>
  C8. \<^verbatim>\<open>to_string\<close> leaves the builder as it was, whatever comes of it, so a
  second call with the same flag has the same outcome as the first: the same text, or,
  where the pretty printer raises on the text, the same error.
\<close>

theorem to_string_twice:
  "snd (to_string toprettyxml b pretty) = b \<and>
   to_string toprettyxml (snd (to_string toprettyxml b pretty)) pretty =
     to_string toprettyxml b pretty"
  by (simp add: to_string_def Let_def split: option.splits)

section \<open>Loading a text\<close>











section \<open>Parsing what was serialised\<close>






subsection \<open>Attribute values\<close>










subsection \<open>Names and attributes\<close>











subsection \<open>Tags and events\<close>










subsection \<open>Building the tree\<close>






lemma name_char_no_return: "is_name_char c \<Longrightarrow> c \<noteq> CHR 0x0D"
  by (auto simp: is_name_char_def is_name_start_def is_letter_def is_digit_def)





subsection \<open>What \<^verbatim>\<open>find\<close> returns\<close>

lemma iter_subtree:
  "(p, t) \<in> set (iter e) \<Longrightarrow> \<exists>x. subtree p e = Some x \<and> tag x = t"
  "(p, t) \<in> set (iter_children i cs) \<Longrightarrow>
     \<exists>j q x. p = (i + j) # q \<and> j < length cs \<and> subtree q (cs ! j) = Some x \<and> tag x = t"
proof (induction e and i cs arbitrary: p t and p t rule: iter_iter_children.induct)
  case (1 t' a x l cs)
  show ?case
  proof (cases "p = []")
    case True
    with "1.prems" show ?thesis
      using "1.IH" by (auto; fastforce)
  next
    case False
    with "1.prems" have "(p, t) \<in> set (iter_children 0 cs)" by auto
    from "1.IH" [OF this] obtain j q x where
      "p = j # q" "j < length cs" "subtree q (cs ! j) = Some x" "tag x = t"
      by auto
    then show ?thesis by simp
  qed
next
  case (2 i)
  then show ?case by simp
next
  case (3 i c cs)
  from "3.prems" consider (here) q where "p = i # q" "(q, t) \<in> set (iter c)"
    | (later) "(p, t) \<in> set (iter_children (Suc i) cs)"
    by auto
  then show ?case
  proof cases
    case here
    from "3.IH"(1) [OF here(2)] obtain x where "subtree q c = Some x" "tag x = t" by blast
    with here(1) show ?thesis
      by (intro exI [of _ 0] exI [of _ q] exI [of _ x]) simp
  next
    case later
    from "3.IH"(2) [OF later] obtain j q x where
      "p = (Suc i + j) # q" "j < length cs" "subtree q (cs ! j) = Some x" "tag x = t"
      by blast
    then show ?thesis
      by (intro exI [of _ "Suc j"] exI [of _ q] exI [of _ x]) simp
  qed
qed

lemma find_descendant_Some:
  assumes "find_descendant e name = Some p"
  shows "\<exists>x. subtree p e = Some x \<and> tag x = name"
proof -
  from assms obtain t rest where
    f: "filter (\<lambda>(p, t). t = name) (tl (iter e)) = (p, t) # rest"
    by (auto simp: find_descendant_def split: list.splits)
  then have "(p, t) \<in> set (filter (\<lambda>(p, t). t = name) (tl (iter e)))" by simp
  then have "(p, t) \<in> set (tl (iter e))" and "t = name" by auto
  then have "(p, name) \<in> set (iter e)"
    by (cases "iter e") auto
  from iter_subtree(1) [OF this] show ?thesis .
qed

lemma from_fetch_xml_not_dangling:
  assumes "fromstring s = Inr t"
  shows "from_fetch_xml s \<noteq> Inl Dangling"
proof (cases "find_descendant t ''entity''")
  case None
  with assms show ?thesis by (simp add: from_fetch_xml_def)
next
  case (Some p)
  from find_descendant_Some [OF Some] obtain x where "subtree p t = Some x" by blast
  with assms Some show ?thesis
    by (auto simp: from_fetch_xml_def add_fetch_xml_def split: option.splits)
qed

section \<open>Chains of calls on a new builder\<close>

text \<open>
  A builder that \<^verbatim>\<open>__init__\<close> made and that only the six appending methods
  have changed holds one tree, a \<^verbatim>\<open>fetch\<close> root with the entity as its only
  child, and its entity is that child.
\<close>



















subsection \<open>Values as text\<close>



subsection \<open>The invariant\<close>












section \<open>One filter node\<close>





section \<open>Serialising and loading again\<close>









end
